theory Spec2Isabelle
  imports Complex_Main "HOL-Library.Char_ord" "HOL-Library.List_Lexorder"
begin

section \<open>Data model\<close>

text \<open>
  The program (\<^verbatim>\<open>app.py\<close>) reads a transactions table, and optionally an invoices table,
  into pandas data frames and derives every output from them in one pass.

  A date column after \<^verbatim>\<open>pd.to_datetime\<close> holds timestamps: whole numbers of nanoseconds
  since the epoch, with the time of day the text had (midnight for a text with a date
  only). \<^verbatim>\<open>pd.Timedelta(days=n)\<close> is \<open>n * day\<close>, and \<^verbatim>\<open>.days\<close> of a difference is its
  quotient by \<open>day\<close>, rounded down.
\<close>

definition day :: int where
  "day = 86400000000000"

text \<open>
  A row of the transactions frame is a record of the columns the computations read. An
  empty \<^verbatim>\<open>client_or_vendor\<close> cell (NaN in pandas) is \<open>None\<close>. Every row has a date and an
  amount (no NaT, no NaN). The columns \<^verbatim>\<open>category\<close> and \<^verbatim>\<open>notes\<close> are read by no
  computation and are left out. An amount is the number the cell holds: a float64 value,
  or a whole number when pandas reads the column as int64.
\<close>

record txn =
  date :: int
  type :: string
  amount :: real
  client_or_vendor :: "string option"

record forecast_row =
  fc_date :: int
  fc_daily_net :: real
  fc_balance :: real

text \<open>The two dates of a record are calendar days (\<^verbatim>\<open>.date()\<close>): day numbers.\<close>

record recurring_record =
  vendor :: string
  avg_gap_days :: real
  frequency :: string
  avg_amount :: real
  last_payment_date :: int
  next_expected_date :: int

text \<open>
  A row of the invoices frame, with the columns the delay computation reads
  (\<^verbatim>\<open>paid_date\<close> is parsed with \<^verbatim>\<open>errors="coerce"\<close>: a blank or unreadable cell is
  \<open>None\<close>).
\<close>

record invoice =
  client :: string
  issue_date :: int
  due_date :: int
  paid_date :: "int option"

datatype error = ValueError

text \<open>What the late-paying-clients tab shows for an uploaded invoices file.\<close>

datatype late_result =
  SchemaError
| NoPaidInvoices
| NoLateClients
| LateStats "(string \<times> real) list"

section \<open>Numbers\<close>

text \<open>Python's \<^verbatim>\<open>round\<close> of a float: to the nearest integer, a tie to the even one.\<close>

definition py_round :: "real \<Rightarrow> int" where
  "py_round x =
     (let f = \<lfloor>x\<rfloor>; r = x - of_int f
      in if r < 1 / 2 then f else if 1 / 2 < r then f + 1 else if even f then f else f + 1)"

text \<open>
  Rounding a real number to float64 (binary64, to nearest, a tie to the even mantissa).
  A number of magnitude in \<open>[2^52, 2^53)\<close> is rounded to an integer; a larger one is
  halved until it is there, a smaller one doubled, at most 1074 times (below that the
  spacing of the floats stays \<open>2^-1074\<close>). Overflow to infinity is left out: no
  magnitude near \<open>2^1024\<close> is met.
\<close>

function fl_down :: "real \<Rightarrow> real" where
  "fl_down x = (if \<bar>x\<bar> < 2 ^ 53 then of_int (py_round x) else 2 * fl_down (x / 2))"
  by pat_completeness auto
termination
proof (relation "measure (\<lambda>x. nat \<lceil>\<bar>x\<bar>\<rceil>)")
  show "wf (measure (\<lambda>x. nat \<lceil>\<bar>x\<bar>\<rceil>))" by simp
next
  fix x :: real
  assume "\<not> \<bar>x\<bar> < 2 ^ 53"
  then have big: "2 \<le> \<bar>x\<bar>" by simp
  have "of_int \<lceil>\<bar>x / 2\<bar>\<rceil> < \<bar>x / 2\<bar> + 1" by linarith
  also have "\<dots> \<le> \<bar>x\<bar>" using big by simp
  also have "\<dots> \<le> of_int \<lceil>\<bar>x\<bar>\<rceil>" by linarith
  finally have less: "\<lceil>\<bar>x / 2\<bar>\<rceil> < \<lceil>\<bar>x\<bar>\<rceil>" by (simp only: of_int_less_iff)
  have "0 \<le> \<bar>x / 2\<bar>" by (rule abs_ge_zero)
  then have "0 \<le> \<lceil>\<bar>x / 2\<bar>\<rceil>" by simp
  with less have "nat \<lceil>\<bar>x / 2\<bar>\<rceil> < nat \<lceil>\<bar>x\<bar>\<rceil>" by linarith
  then show "(x / 2, x) \<in> measure (\<lambda>x. nat \<lceil>\<bar>x\<bar>\<rceil>)" by (simp only: in_measure)
qed

fun fl_up :: "nat \<Rightarrow> real \<Rightarrow> real" where
  "fl_up 0 x = of_int (py_round x)"
| "fl_up (Suc n) x = (if 2 ^ 52 \<le> \<bar>x\<bar> then of_int (py_round x) else fl_up n (2 * x) / 2)"

definition fl :: "real \<Rightarrow> real" where
  "fl x = (if 2 ^ 53 \<le> \<bar>x\<bar> then fl_down x else fl_up 1074 x)"

text \<open>The sum of two floats.\<close>

definition fadd :: "real \<Rightarrow> real \<Rightarrow> real" where
  "fadd a b = fl (a + b)"


text \<open>
  The arithmetic of the amount column. pandas reads the column as int64 when every cell
  is a whole number and as float64 otherwise, and the scheme by which a reduction adds up
  floats (left to right, in pairs, with a correction term) is pandas' own and has changed
  between its versions. So the operations of the column are carried as a parameter:
  \<^item> \<open>col_sum\<close>: the sum of one group of \<^verbatim>\<open>groupby(...).sum()\<close>;
  \<^item> \<open>col_mean\<close>: the mean of one group, \<^verbatim>\<open>group["amount"].mean()\<close>;
  \<^item> \<open>col_add\<close>: the sum of two entries, as \<^verbatim>\<open>cumsum\<close> forms it;
  \<^item> \<open>to_float64\<close>: an entry as the float that is added to a float.
\<close>

record arith =
  col_sum :: "real list \<Rightarrow> real"
  col_mean :: "real list \<Rightarrow> real"
  col_add :: "real \<Rightarrow> real \<Rightarrow> real"
  to_float64 :: "real \<Rightarrow> real"

text \<open>A float64 column, its reductions adding left to right.\<close>

definition float64 :: arith where
  "float64 =
     \<lparr>col_sum = foldl fadd 0,
      col_mean = (\<lambda>xs. fl (foldl fadd 0 xs / real (length xs))),
      col_add = fadd,
      to_float64 = (\<lambda>x. x)\<rparr>"


section \<open>Loading and cleaning the transactions\<close>

text \<open>
  \<^verbatim>\<open>str.lower()\<close> on the text of the \<^verbatim>\<open>type\<close> column. Characters are bytes here; the
  letters \<open>A\<close> to \<open>Z\<close> are folded to \<open>a\<close> to \<open>z\<close> and every other byte is kept
  (Python also folds letters outside ASCII; none of them becomes a letter of \<open>expense\<close>).
\<close>

definition lower_char :: "char \<Rightarrow> char" where
  "lower_char c =
     (case map_of (zip ''ABCDEFGHIJKLMNOPQRSTUVWXYZ'' ''abcdefghijklmnopqrstuvwxyz'') c of
        Some l \<Rightarrow> l
      | None \<Rightarrow> c)"

definition lower :: "string \<Rightarrow> string" where
  "lower s = map lower_char s"

text \<open>
  \<^verbatim>\<open>df["signed_amount"] = df.apply(lambda row: -row["amount"]
      if str(row["type"]).lower() == "expense" else row["amount"], axis=1)\<close>
\<close>

definition signed_amount :: "txn \<Rightarrow> real" where
  "signed_amount row =
     (if lower (type row) = ''expense'' then - amount row else amount row)"

section \<open>The 90-day forecast\<close>

text \<open>
  \<^verbatim>\<open>pd.date_range(start=start_date, end=end_date, freq="D")\<close>: the timestamps
  \<open>start\<close>, \<open>start + day\<close>, \<open>start + 2 * day\<close>, ... that are not after \<open>end\<close>.
\<close>

definition date_range :: "int \<Rightarrow> int \<Rightarrow> int list" where
  "date_range start_date end_date =
     map (\<lambda>k. start_date + int k * day) [0..<nat ((end_date - start_date) div day + 1)]"

text \<open>
  \<^verbatim>\<open>df.groupby("date")["signed_amount"].sum()\<close>: one entry per distinct timestamp, in
  ascending order, holding the sum of the signed amounts of its rows.
\<close>

definition groupby_date_sum :: "arith \<Rightarrow> txn list \<Rightarrow> (int \<times> real) list" where
  "groupby_date_sum ar df =
     map (\<lambda>d. (d, col_sum ar (map signed_amount (filter (\<lambda>row. date row = d) df))))
       (sort (remdups (map date df)))"

text \<open>\<^verbatim>\<open>series.reindex(index, fill_value=v)\<close>: look every index up, \<open>v\<close> where it is absent.\<close>

definition reindex :: "(int \<times> real) list \<Rightarrow> int list \<Rightarrow> real \<Rightarrow> real list" where
  "reindex series idx fill_value =
     map (\<lambda>d. case map_of series d of Some v \<Rightarrow> v | None \<Rightarrow> fill_value) idx"

definition daily_net :: "arith \<Rightarrow> txn list \<Rightarrow> int list \<Rightarrow> real list" where
  "daily_net ar df dr = reindex (groupby_date_sum ar df) dr 0"

text \<open>\<^verbatim>\<open>series.cumsum()\<close>: the first entry, then each running sum plus the next entry.\<close>

fun cumsum_from :: "arith \<Rightarrow> real \<Rightarrow> real list \<Rightarrow> real list" where
  "cumsum_from ar acc [] = []"
| "cumsum_from ar acc (x # xs) = col_add ar acc x # cumsum_from ar (col_add ar acc x) xs"

definition cumsum :: "arith \<Rightarrow> real list \<Rightarrow> real list" where
  "cumsum ar xs = (case xs of [] \<Rightarrow> [] | x # xs' \<Rightarrow> x # cumsum_from ar x xs')"

text \<open>
  Lines 82 to 89; \<open>starting_balance\<close> is a float. On a frame with no rows no forecast is
  built: pandas raises \<^verbatim>\<open>ValueError\<close>, at the latest in \<^verbatim>\<open>pd.date_range\<close>, whose
  start \<^verbatim>\<open>df["date"].min()\<close> is then NaT.
\<close>

definition forecast_df :: "arith \<Rightarrow> real \<Rightarrow> txn list \<Rightarrow> error + forecast_row list" where
  "forecast_df ar starting_balance df =
     (if df = [] then Inl ValueError
      else
        let start_date = min_list (map date df);
            end_date = start_date + 89 * day;
            dr = date_range start_date end_date;
            dn = daily_net ar df dr;
            bal = map (\<lambda>c. fadd starting_balance (to_float64 ar c)) (cumsum ar dn)
        in Inr (map (\<lambda>(d, n, b). \<lparr>fc_date = d, fc_daily_net = n, fc_balance = b\<rparr>)
                  (zip dr (zip dn bal))))"

section \<open>Big expense days\<close>

text \<open>
  \<^verbatim>\<open>frame.sort_values(col, ascending=False)\<close>. pandas reverses the rows, sorts them
  ascending and reverses the result; rows with equal keys are kept here in their original
  order (the default sort kind does not fix their order).
\<close>

definition sort_values_desc :: "('a \<Rightarrow> real) \<Rightarrow> 'a list \<Rightarrow> 'a list" where
  "sort_values_desc key xs = rev (sort_key key (rev xs))"

definition expense_days :: "forecast_row list \<Rightarrow> forecast_row list" where
  "expense_days fc = filter (\<lambda>r. fc_daily_net r < 0) fc"

definition abs_expense :: "forecast_row \<Rightarrow> real" where
  "abs_expense r = \<bar>fc_daily_net r\<bar>"

definition top_expense_days :: "forecast_row list \<Rightarrow> forecast_row list" where
  "top_expense_days fc = take 10 (sort_values_desc abs_expense (expense_days fc))"

section \<open>Recurring expenses\<close>

definition expenses_only :: "txn list \<Rightarrow> txn list" where
  "expenses_only df = filter (\<lambda>row. lower (type row) = ''expense'') df"

text \<open>\<^verbatim>\<open>gaps = [(dates[i + 1] - dates[i]).days for i in range(len(dates) - 1)]\<close>\<close>

definition gaps_of :: "int list \<Rightarrow> int list" where
  "gaps_of dates = map (\<lambda>i. (dates ! (i + 1) - dates ! i) div day) [0..<length dates - 1]"

text \<open>\<^verbatim>\<open>avg_gap = sum(gaps) / len(gaps)\<close>: the quotient of two integers, as a float.\<close>

definition avg_gap_of :: "int list \<Rightarrow> real" where
  "avg_gap_of dates =
     fl (real_of_int (sum_list (gaps_of dates)) / real (length (gaps_of dates)))"

text \<open>
  Python's \<^verbatim>\<open>round(x, n)\<close> of a float: the float nearest to \<open>x\<close> rounded to \<open>n\<close>
  decimals.
\<close>

definition round_ndigits :: "real \<Rightarrow> nat \<Rightarrow> real" where
  "round_ndigits x n = fl (of_int (py_round (x * 10 ^ n)) / 10 ^ n)"

text \<open>Lines 133 to 140.\<close>

definition freq_label :: "real \<Rightarrow> string" where
  "freq_label avg_gap =
     (if 5 \<le> avg_gap \<and> avg_gap \<le> 9 then ''Weekly-ish''
      else if 10 \<le> avg_gap \<and> avg_gap \<le> 20 then ''Bi-weekly-ish''
      else if 25 \<le> avg_gap \<and> avg_gap \<le> 35 then ''Monthly-ish''
      else ''Recurring'')"

text \<open>
  The body of the loop over the vendors (lines 108 to 151) for a vendor that is not NaN:
  \<open>None\<close> where the source says \<^verbatim>\<open>continue\<close>, the appended record otherwise.
\<close>

definition recurring_record_of :: "arith \<Rightarrow> string \<Rightarrow> txn list \<Rightarrow> recurring_record option" where
  "recurring_record_of ar v grp =
     (if length grp < 3 then None
      else
        let group = sort_key date grp;
            dates = map date group
        in if length dates < 3 then None
           else
             let gaps = gaps_of dates
             in if gaps = [] then None
                else
                  let avg_gap = avg_gap_of dates
                  in if avg_gap < 5 \<or> 45 < avg_gap then None
                     else
                       let avg_amount = col_mean ar (map amount group);
                           last_date = last dates;
                           next_date = last_date + py_round avg_gap * day
                       in Some \<lparr>vendor = v,
                                 avg_gap_days = round_ndigits avg_gap 1,
                                 frequency = freq_label avg_gap,
                                 avg_amount = round_ndigits avg_amount 2,
                                 last_payment_date = last_date div day,
                                 next_expected_date = next_date div day\<rparr>)"

text \<open>
  \<^verbatim>\<open>expenses_only.groupby("client_or_vendor")\<close> visits the distinct vendors in ascending
  order, each with its rows in frame order; rows with no vendor belong to no group. (A
  frame without the column has no vendor at all; the script stops there with
  \<^verbatim>\<open>KeyError\<close> and no record is made.)
\<close>

definition vendor_group :: "txn list \<Rightarrow> string \<Rightarrow> txn list" where
  "vendor_group expenses v = filter (\<lambda>row. client_or_vendor row = Some v) expenses"

definition recurring_records :: "arith \<Rightarrow> txn list \<Rightarrow> recurring_record list" where
  "recurring_records ar df =
     (let expenses = expenses_only df
      in List.map_filter (\<lambda>v. recurring_record_of ar v (vendor_group expenses v))
           (sort (remdups (List.map_filter client_or_vendor expenses))))"

section \<open>Late-paying clients\<close>

definition required_invoice_cols :: "string set" where
  "required_invoice_cols = {''client'', ''issue_date'', ''due_date'', ''paid_date'', ''amount''}"

text \<open>\<^verbatim>\<open>paid["delay_days"] = (paid["paid_date"] - paid["due_date"]).dt.days\<close>\<close>

definition delay_days :: "invoice \<Rightarrow> int" where
  "delay_days i = (case paid_date i of Some p \<Rightarrow> (p - due_date i) div day | None \<Rightarrow> 0)"

text \<open>
  \<^verbatim>\<open>paid.groupby("client")["delay_days"].mean().reset_index()\<close>: per client, the sum of
  the whole-day delays divided by their number, as a float.
\<close>

definition mean_delay_by_client :: "invoice list \<Rightarrow> (string \<times> real) list" where
  "mean_delay_by_client paid =
     map (\<lambda>c. (c, fl (real_of_int (sum_list (map delay_days (filter (\<lambda>i. client i = c) paid)))
                       / real (length (filter (\<lambda>i. client i = c) paid)))))
       (sort (remdups (map client paid)))"

text \<open>
  \<^verbatim>\<open>series.round(n)\<close> (numpy): times \<open>10^n\<close>, to the nearest integer, divided by
  \<open>10^n\<close>, each step in floats.
\<close>

definition np_round :: "real \<Rightarrow> nat \<Rightarrow> real" where
  "np_round x n = fl (of_int (py_round (fl (x * 10 ^ n))) / 10 ^ n)"

text \<open>
  Lines 265 to 298, for an uploaded invoices file with the given column names and rows
  (the rows are read only past the check of the columns).
\<close>

definition late_tab :: "string list \<Rightarrow> invoice list \<Rightarrow> late_result" where
  "late_tab columns inv_rows =
     (if \<not> required_invoice_cols \<subseteq> set columns then SchemaError
      else
        let paid = filter (\<lambda>i. paid_date i \<noteq> None) inv_rows
        in if paid = [] then NoPaidInvoices
           else
             let late_stats = sort_values_desc snd (mean_delay_by_client paid);
                 late_stats = filter (\<lambda>(c, d). 0 < d) late_stats
             in if late_stats = [] then NoLateClients
                else LateStats (map (\<lambda>(c, d). (c, np_round d 1)) late_stats))"

section \<open>Notions used in the statements\<close>

text \<open>
  The daily net of the timestamp \<open>d\<close>: the column's sum over the rows stamped exactly
  \<open>d\<close>, and 0 when there is none.
\<close>

definition day_net :: "arith \<Rightarrow> txn list \<Rightarrow> int \<Rightarrow> real" where
  "day_net ar df d =
     (if filter (\<lambda>row. date row = d) df = [] then 0
      else col_sum ar (map signed_amount (filter (\<lambda>row. date row = d) df)))"

text \<open>The exact sum of the signed amounts of the rows stamped exactly \<open>d\<close>.\<close>

definition day_total :: "txn list \<Rightarrow> int \<Rightarrow> real" where
  "day_total df d = sum_list (map signed_amount (filter (\<lambda>row. date row = d) df))"

text \<open>
  An arithmetic that does not round or wrap on whole numbers up to \<open>2^53\<close>: sums of
  such numbers come out exact. The float64 and the int64 column above are of this kind.
\<close>

definition exact_on_whole :: "arith \<Rightarrow> bool" where
  "exact_on_whole ar \<longleftrightarrow>
     (\<forall>xs. (\<forall>x \<in> set xs. x \<in> \<int>) \<and> sum_list (map abs xs) \<le> 2 ^ 53 \<longrightarrow> col_sum ar xs = sum_list xs) \<and>
     (\<forall>a b. a \<in> \<int> \<and> b \<in> \<int> \<and> \<bar>a\<bar> + \<bar>b\<bar> \<le> 2 ^ 53 \<longrightarrow> col_add ar a b = a + b) \<and>
     (\<forall>a. a \<in> \<int> \<and> \<bar>a\<bar> \<le> 2 ^ 53 \<longrightarrow> to_float64 ar a = a)"

text \<open>
  A ledger of whole amounts that, together with the starting balance \<open>sb\<close>, stay within
  \<open>2^53\<close> in magnitude.
\<close>

definition whole_within :: "real \<Rightarrow> txn list \<Rightarrow> bool" where
  "whole_within sb df \<longleftrightarrow>
     sb \<in> \<int> \<and> (\<forall>row \<in> set df. amount row \<in> \<int>) \<and>
     \<bar>sb\<bar> + sum_list (map (\<lambda>row. \<bar>amount row\<bar>) df) \<le> 2 ^ 53"

text \<open>The rows of the forecast, none where no forecast is built.\<close>

definition forecast_rows :: "arith \<Rightarrow> real \<Rightarrow> txn list \<Rightarrow> forecast_row list" where
  "forecast_rows ar sb df = (case forecast_df ar sb df of Inr rows \<Rightarrow> rows | Inl e \<Rightarrow> [])"

text \<open>The timestamps of a vendor's expense rows, in ascending order.\<close>

definition expense_dates_of :: "txn list \<Rightarrow> string \<Rightarrow> int list" where
  "expense_dates_of df v =
     sort (map date (filter (\<lambda>row. lower (type row) = ''expense'' \<and> client_or_vendor row = Some v) df))"

text \<open>Small ledgers on which the statements are exercised (all stamped at midnight).\<close>

definition ledger_a :: "txn list" where
  "ledger_a =
     [\<lparr>date = 10 * day, type = ''income'', amount = 1000, client_or_vendor = None\<rparr>,
      \<lparr>date = 11 * day, type = ''Expense'', amount = 200, client_or_vendor = Some ''acme''\<rparr>,
      \<lparr>date = 12 * day, type = ''expense'', amount = 300, client_or_vendor = None\<rparr>]"


text \<open>Amounts of 0.01 and 0.02, as the floats nearest to them.\<close>

definition ledger_d :: "txn list" where
  "ledger_d =
     [\<lparr>date = 0, type = ''income'', amount = fl (1 / 100), client_or_vendor = None\<rparr>,
      \<lparr>date = day, type = ''income'', amount = fl (2 / 100), client_or_vendor = None\<rparr>]"

definition ledger_b :: "txn list" where
  "ledger_b =
     [\<lparr>date = 0, type = ''Expense'', amount = 100, client_or_vendor = Some ''acme''\<rparr>,
      \<lparr>date = 19 * day, type = ''expense'', amount = 100, client_or_vendor = Some ''acme''\<rparr>,
      \<lparr>date = 9 * day, type = ''EXPENSE'', amount = 130, client_or_vendor = Some ''acme''\<rparr>,
      \<lparr>date = 0, type = ''expense'', amount = 100, client_or_vendor = Some ''rent''\<rparr>,
      \<lparr>date = 30 * day, type = ''expense'', amount = 100, client_or_vendor = Some ''rent''\<rparr>,
      \<lparr>date = 60 * day, type = ''expense'', amount = 100, client_or_vendor = Some ''rent''\<rparr>,
      \<lparr>date = 90 * day, type = ''expense'', amount = 100, client_or_vendor = Some ''rent''\<rparr>,
      \<lparr>date = 12 * day, type = ''expense'', amount = 300, client_or_vendor = Some ''solo''\<rparr>]"

section \<open>Facts about the numbers\<close>

lemma day_pos: "0 < day"
  by (simp add: day_def)

lemma fl_up_unfold:
  "fl_up n x =
     (if n = 0 \<or> 2 ^ 52 \<le> \<bar>x\<bar> then of_int (py_round x) else fl_up (n - 1) (2 * x) / 2)"
  by (cases n) simp_all

lemma py_round_of_int: "py_round (of_int n) = n"
  by (simp add: py_round_def)

lemma fl_up_of_int: "fl_up k (of_int n) = of_int n"
proof (induction k arbitrary: n)
  case 0
  show ?case by (simp add: py_round_of_int)
next
  case (Suc k)
  have "fl_up k (2 * of_int n) = of_int (2 * n)"
    using Suc.IH [of "2 * n"] by simp
  then show ?case by (simp add: py_round_of_int)
qed

lemma fl_of_int:
  assumes "\<bar>n\<bar> \<le> 2 ^ 53"
  shows "fl (of_int n) = of_int n"
proof (cases "\<bar>n\<bar> < 2 ^ 53")
  case True
  then have "real_of_int \<bar>n\<bar> < real_of_int (2 ^ 53)" by (simp only: of_int_less_iff)
  then have "\<not> 2 ^ 53 \<le> \<bar>real_of_int n\<bar>" by simp
  then show ?thesis by (simp add: fl_def fl_up_of_int)
next
  case False
  with assms have "n = 2 ^ 53 \<or> n = - (2 ^ 53)" by linarith
  then show ?thesis
  proof
    assume "n = 2 ^ 53"
    then show ?thesis by (simp add: fl_def fl_down.simps py_round_def)
  next
    assume "n = - (2 ^ 53)"
    then show ?thesis by (simp add: fl_def fl_down.simps py_round_def)
  qed
qed

text \<open>A whole number up to \<open>2^53\<close> in magnitude is a float.\<close>

lemma fl_whole:
  assumes "x \<in> \<int>" and "\<bar>x\<bar> \<le> 2 ^ 53"
  shows "fl x = x"
proof -
  from assms(1) obtain n where n: "x = of_int n" by (rule Ints_cases)
  with assms(2) have "real_of_int \<bar>n\<bar> \<le> real_of_int (2 ^ 53)" by simp
  then have "\<bar>n\<bar> \<le> 2 ^ 53" by (simp only: of_int_le_iff)
  then show ?thesis unfolding n by (rule fl_of_int)
qed


lemma abs_sum_list_le: "\<bar>sum_list xs\<bar> \<le> sum_list (map abs xs)" for xs :: "real list"
  by (induction xs) auto

lemma sum_list_Ints: "(\<forall>x \<in> set xs. x \<in> \<int>) \<Longrightarrow> sum_list xs \<in> \<int>" for xs :: "real list"
  by (induction xs) auto

lemma foldl_fadd_whole:
  assumes "a \<in> \<int>" and "\<forall>x \<in> set xs. x \<in> \<int>" and "\<bar>a\<bar> + sum_list (map abs xs) \<le> 2 ^ 53"
  shows "foldl fadd a xs = a + sum_list xs"
  using assms
proof (induction xs arbitrary: a)
  case Nil
  then show ?case by simp
next
  case (Cons x xs)
  have ax: "a + x \<in> \<int>" using Cons.prems by simp
  have "0 \<le> sum_list (map abs xs)" by (rule sum_list_nonneg) auto
  with Cons.prems(3) have "\<bar>a + x\<bar> \<le> 2 ^ 53" by simp
  with ax have step: "fadd a x = a + x" unfolding fadd_def by (rule fl_whole)
  have "foldl fadd (a + x) xs = a + x + sum_list xs"
    using Cons.prems ax by (intro Cons.IH) auto
  with step show ?case by simp
qed

lemma exact_on_whole_float64: "exact_on_whole float64"
  unfolding exact_on_whole_def
proof (intro conjI allI impI)
  fix xs :: "real list"
  assume "(\<forall>x \<in> set xs. x \<in> \<int>) \<and> sum_list (map abs xs) \<le> 2 ^ 53"
  then have "foldl fadd 0 xs = 0 + sum_list xs" by (intro foldl_fadd_whole) simp_all
  then show "col_sum float64 xs = sum_list xs" by (simp add: float64_def)
next
  fix a b :: real
  assume "a \<in> \<int> \<and> b \<in> \<int> \<and> \<bar>a\<bar> + \<bar>b\<bar> \<le> 2 ^ 53"
  then have "a + b \<in> \<int>" and "\<bar>a + b\<bar> \<le> 2 ^ 53" by auto
  then have "fl (a + b) = a + b" by (rule fl_whole)
  then show "col_add float64 a b = a + b" by (simp add: float64_def fadd_def)
next
  fix a :: real
  show "to_float64 float64 a = a" by (simp add: float64_def)
qed


section \<open>Facts about the forecast\<close>

lemma map_of_groupby_date_sum:
  "map_of (groupby_date_sum ar df) d =
     (if d \<in> date ` set df
      then Some (col_sum ar (map signed_amount (filter (\<lambda>row. date row = d) df)))
      else None)"
  unfolding groupby_date_sum_def
  by (simp add: map_of_map_restrict restrict_map_def)

lemma filter_date_empty: "filter (\<lambda>row. date row = d) df = [] \<longleftrightarrow> d \<notin> date ` set df"
  by (auto simp: filter_empty_conv)

lemma daily_net_eq: "daily_net ar df dr = map (day_net ar df) dr"
  unfolding daily_net_def reindex_def day_net_def
  by (simp add: map_of_groupby_date_sum filter_date_empty)

lemma length_date_range: "length (date_range s (s + 89 * day)) = 90"
  using day_pos by (simp add: date_range_def)

lemma nth_date_range: "i < 90 \<Longrightarrow> date_range s (s + 89 * day) ! i = s + int i * day"
  using day_pos by (simp add: date_range_def)

lemma length_cumsum_from: "length (cumsum_from ar acc xs) = length xs"
  by (induction xs arbitrary: acc) simp_all

lemma length_cumsum: "length (cumsum ar xs) = length xs"
  by (cases xs) (simp_all add: cumsum_def length_cumsum_from)

lemma nth_cumsum_from:
  "i < length xs \<Longrightarrow> cumsum_from ar acc xs ! i = foldl (col_add ar) acc (take (Suc i) xs)"
proof (induction xs arbitrary: acc i)
  case Nil
  then show ?case by simp
next
  case (Cons x xs)
  show ?case
  proof (cases i)
    case 0
    then show ?thesis by simp
  next
    case (Suc k)
    with Cons.prems have "k < length xs" by simp
    from Cons.IH [OF this, of "col_add ar acc x"] Suc show ?thesis by simp
  qed
qed

text \<open>Entry \<open>i\<close> of the running sums: the first entry, with the next \<open>i\<close> added one by one.\<close>

lemma nth_cumsum:
  assumes "i < length xs"
  shows "cumsum ar xs ! i = foldl (col_add ar) (hd xs) (take i (tl xs))"
proof (cases xs)
  case Nil
  with assms show ?thesis by simp
next
  case (Cons x xs')
  show ?thesis
  proof (cases i)
    case 0
    then show ?thesis by (simp add: Cons cumsum_def)
  next
    case (Suc k)
    with assms Cons have "k < length xs'" by simp
    then show ?thesis by (simp add: Cons Suc cumsum_def nth_cumsum_from)
  qed
qed

text \<open>The daily nets of the 90 days from \<open>s\<close> on.\<close>

lemma forecast_df_closed:
  assumes "df \<noteq> []"
  shows "forecast_df ar sb df =
    Inr (map (\<lambda>i. \<lparr>fc_date = min_list (map date df) + int i * day,
                    fc_daily_net = day_net ar df (min_list (map date df) + int i * day),
                    fc_balance = fadd sb (to_float64 ar
                      (cumsum ar (map (\<lambda>j. day_net ar df (min_list (map date df) + int j * day)) [0..<90]) ! i))\<rparr>)
           [0..<90])"
proof -
  define s where "s = min_list (map date df)"
  define dr where "dr = date_range s (s + 89 * day)"
  define dn where "dn = daily_net ar df dr"
  define bal where "bal = map (\<lambda>c. fadd sb (to_float64 ar c)) (cumsum ar dn)"
  define rows where "rows = map (\<lambda>(d, n, b). \<lparr>fc_date = d, fc_daily_net = n, fc_balance = b\<rparr>)
                  (zip dr (zip dn bal))"
  have eq: "forecast_df ar sb df = Inr rows"
    using assms by (simp add: forecast_df_def Let_def rows_def bal_def dn_def dr_def s_def)
  have ldr: "length dr = 90" by (simp add: dr_def length_date_range)
  have ldn: "length dn = 90" by (simp add: dn_def daily_net_eq ldr)
  have lbal: "length bal = 90" by (simp add: bal_def length_cumsum ldn)
  have dn_nth: "dn ! i = day_net ar df (s + int i * day)" if "i < 90" for i
    using that by (simp add: dn_def daily_net_eq dr_def length_date_range nth_date_range)
  have dn_map: "dn = map (\<lambda>j. day_net ar df (s + int j * day)) [0..<90]"
    by (rule nth_equalityI) (simp_all add: ldn dn_nth)
  have "rows = map (\<lambda>i. \<lparr>fc_date = s + int i * day, fc_daily_net = day_net ar df (s + int i * day),
                    fc_balance = fadd sb (to_float64 ar (cumsum ar dn ! i))\<rparr>) [0..<90]"
  proof (rule nth_equalityI)
    show "length rows = length (map (\<lambda>i. \<lparr>fc_date = s + int i * day,
                    fc_daily_net = day_net ar df (s + int i * day),
                    fc_balance = fadd sb (to_float64 ar (cumsum ar dn ! i))\<rparr>) [0..<90])"
      by (simp add: rows_def ldr ldn lbal)
  next
    fix i assume "i < length rows"
    then have i: "i < 90" by (simp add: rows_def ldr ldn lbal)
    then have "rows ! i = \<lparr>fc_date = dr ! i, fc_daily_net = dn ! i, fc_balance = bal ! i\<rparr>"
      by (simp add: rows_def ldr ldn lbal)
    moreover have "bal ! i = fadd sb (to_float64 ar (cumsum ar dn ! i))"
      using i by (simp add: bal_def length_cumsum ldn)
    ultimately show "rows ! i = map (\<lambda>i. \<lparr>fc_date = s + int i * day,
                    fc_daily_net = day_net ar df (s + int i * day),
                    fc_balance = fadd sb (to_float64 ar (cumsum ar dn ! i))\<rparr>) [0..<90] ! i"
      using i by (simp add: dn_nth dr_def nth_date_range del: upt_Suc)
  qed
  with eq show ?thesis unfolding dn_map s_def by (simp only:)
qed

lemma min_list_date: "df \<noteq> [] \<Longrightarrow> min_list (map date df) = Min (date ` set df)"
  by (simp add: min_list_Min)

lemma forecast_returns: "df \<noteq> [] \<Longrightarrow> \<exists>rows. forecast_df ar sb df = Inr rows"
  using forecast_df_closed [of df ar sb] by simp

lemma forecast_length:
  assumes "df \<noteq> []" and "forecast_df ar sb df = Inr rows"
  shows "length rows = 90"
  using assms forecast_df_closed [OF assms(1), of ar sb] by auto

lemma forecast_daily_nets:
  assumes "df \<noteq> []" and "forecast_df ar sb df = Inr rows"
  shows "map fc_daily_net rows =
         map (\<lambda>j. day_net ar df (Min (date ` set df) + int j * day)) [0..<90]"
proof -
  have "rows = map (\<lambda>i. \<lparr>fc_date = min_list (map date df) + int i * day,
                    fc_daily_net = day_net ar df (min_list (map date df) + int i * day),
                    fc_balance = fadd sb (to_float64 ar
                      (cumsum ar (map (\<lambda>j. day_net ar df (min_list (map date df) + int j * day)) [0..<90]) ! i))\<rparr>)
           [0..<90]"
    using assms(2) forecast_df_closed [OF assms(1), of ar sb] by simp
  then have "map fc_daily_net rows =
         map (\<lambda>j. day_net ar df (min_list (map date df) + int j * day)) [0..<90]"
    by (simp add: comp_def del: upt_Suc)
  then show ?thesis by (simp only: min_list_date [OF assms(1)])
qed

lemma forecast_row_nth:
  assumes "df \<noteq> []" and "forecast_df ar sb df = Inr rows" and "i < 90"
  shows "rows ! i = \<lparr>fc_date = Min (date ` set df) + int i * day,
                     fc_daily_net = day_net ar df (Min (date ` set df) + int i * day),
                     fc_balance = fadd sb (to_float64 ar (cumsum ar (map fc_daily_net rows) ! i))\<rparr>"
proof -
  have "rows = map (\<lambda>i. \<lparr>fc_date = min_list (map date df) + int i * day,
                    fc_daily_net = day_net ar df (min_list (map date df) + int i * day),
                    fc_balance = fadd sb (to_float64 ar
                      (cumsum ar (map (\<lambda>j. day_net ar df (min_list (map date df) + int j * day)) [0..<90]) ! i))\<rparr>)
           [0..<90]"
    using assms(2) forecast_df_closed [OF assms(1), of ar sb] by simp
  then have "rows ! i = \<lparr>fc_date = min_list (map date df) + int i * day,
                    fc_daily_net = day_net ar df (min_list (map date df) + int i * day),
                    fc_balance = fadd sb (to_float64 ar
                      (cumsum ar (map (\<lambda>j. day_net ar df (min_list (map date df) + int j * day)) [0..<90]) ! i))\<rparr>"
    using assms(3) by (simp del: upt_Suc)
  then show ?thesis
    by (simp only: min_list_date [OF assms(1)] forecast_daily_nets [OF assms(1,2), symmetric])
qed

lemma forecast_rows_eq:
  "forecast_df ar sb df = Inr rows \<Longrightarrow> forecast_rows ar sb df = rows"
  by (simp add: forecast_rows_def)

text \<open>
  Claim C1. For a ledger with at least one row the forecast is produced, has exactly 90
  rows, its first row is dated at the earliest date of the ledger, and each row is dated
  one day after the row before it.
\<close>

theorem forecast_has_90_consecutive_days:
  assumes "df \<noteq> []"
  shows "\<exists>rows. forecast_df ar sb df = Inr rows \<and> length rows = 90 \<and>
           fc_date (rows ! 0) = Min (date ` set df) \<and>
           (\<forall>i. Suc i < 90 \<longrightarrow> fc_date (rows ! Suc i) = fc_date (rows ! i) + day)"
proof -
  from forecast_returns [OF assms] obtain rows where r: "forecast_df ar sb df = Inr rows" ..
  have "fc_date (rows ! 0) = Min (date ` set df)"
    using forecast_row_nth [OF assms r, of 0] by simp
  moreover have "fc_date (rows ! Suc i) = fc_date (rows ! i) + day" if "Suc i < 90" for i
    using that forecast_row_nth [OF assms r, of i] forecast_row_nth [OF assms r, of "Suc i"]
    by (simp add: algebra_simps)
  ultimately show ?thesis using r forecast_length [OF assms r] by blast
qed

text \<open>On \<open>ledger_a\<close>, whose earliest date is day 10, read as a float64 column.\<close>

theorem forecast_has_90_consecutive_days_witness:
  "ledger_a \<noteq> [] \<and>
   (\<exists>rows. forecast_df float64 500 ledger_a = Inr rows \<and> length rows = 90 \<and>
      fc_date (rows ! 0) = 10 * day \<and>
      (\<forall>i. Suc i < 90 \<longrightarrow> fc_date (rows ! Suc i) = fc_date (rows ! i) + day))"
proof -
  have ne: "ledger_a \<noteq> []" by (simp add: ledger_a_def)
  have "Min (date ` set ledger_a) = 10 * day" by (simp add: ledger_a_def day_def)
  with forecast_has_90_consecutive_days [OF ne, of float64 500] ne show ?thesis by simp
qed

section \<open>Rows outside the horizon\<close>








section \<open>Whole amounts: no rounding\<close>

lemma signed_amount_Ints: "amount row \<in> \<int> \<Longrightarrow> signed_amount row \<in> \<int>"
  by (simp add: signed_amount_def)

lemma abs_signed_amount: "\<bar>signed_amount row\<bar> = \<bar>amount row\<bar>"
  by (simp add: signed_amount_def)

lemma sum_list_filter_le:
  fixes f :: "'a \<Rightarrow> real"
  assumes "\<And>x. 0 \<le> f x"
  shows "sum_list (map f (filter P xs)) \<le> sum_list (map f xs)"
proof (induction xs)
  case Nil
  show ?case by simp
next
  case (Cons x xs)
  with assms [of x] show ?case by simp
qed

lemma sum_list_filter_disj:
  fixes f :: "'a \<Rightarrow> real"
  assumes "\<And>x. \<not> (P x \<and> Q x)"
  shows "sum_list (map f (filter (\<lambda>x. P x \<or> Q x) xs)) =
         sum_list (map f (filter P xs)) + sum_list (map f (filter Q xs))"
  using assms by (induction xs) auto

text \<open>Adding up day by day is adding up the rows stamped on one of the days.\<close>

lemma sum_grid:
  fixes f :: "txn \<Rightarrow> real"
  shows "sum_list (map (\<lambda>j. sum_list (map f (filter (\<lambda>row. date row = s + int j * day) df))) [0..<n]) =
         sum_list (map f (filter (\<lambda>row. \<exists>j<n. date row = s + int j * day) df))"
proof (induction n)
  case 0
  show ?case by simp
next
  case (Suc n)
  have pred: "(\<lambda>row. \<exists>j<Suc n. date row = s + int j * day) =
              (\<lambda>row. (\<exists>j<n. date row = s + int j * day) \<or> date row = s + int n * day)"
    by (rule ext) (auto simp: less_Suc_eq)
  have disj: "\<not> ((\<exists>j<n. date row = s + int j * day) \<and> date row = s + int n * day)" for row
    using day_pos by auto
  have "sum_list (map f (filter (\<lambda>row. \<exists>j<Suc n. date row = s + int j * day) df)) =
        sum_list (map f (filter (\<lambda>row. \<exists>j<n. date row = s + int j * day) df)) +
        sum_list (map f (filter (\<lambda>row. date row = s + int n * day) df))"
    unfolding pred by (rule sum_list_filter_disj) (rule disj)
  with Suc.IH show ?case by simp
qed


lemma day_net_exact:
  assumes "exact_on_whole ar" and "\<forall>row \<in> set df. amount row \<in> \<int>"
    and "sum_list (map (\<lambda>row. \<bar>amount row\<bar>) df) \<le> 2 ^ 53"
  shows "day_net ar df d = day_total df d"
proof -
  define g where "g = filter (\<lambda>row. date row = d) df"
  have ints: "\<forall>x \<in> set (map signed_amount g). x \<in> \<int>"
    using assms(2) by (auto simp: g_def signed_amount_Ints)
  have "sum_list (map abs (map signed_amount g)) = sum_list (map (\<lambda>row. \<bar>amount row\<bar>) g)"
    by (simp add: comp_def abs_signed_amount)
  also have "\<dots> \<le> sum_list (map (\<lambda>row. \<bar>amount row\<bar>) df)"
    unfolding g_def by (rule sum_list_filter_le) simp
  finally have "sum_list (map abs (map signed_amount g)) \<le> 2 ^ 53" using assms(3) by simp
  with ints assms(1) have "col_sum ar (map signed_amount g) = sum_list (map signed_amount g)"
    unfolding exact_on_whole_def by blast
  then show ?thesis by (auto simp: day_net_def day_total_def g_def)
qed

lemma day_total_Ints: "\<forall>row \<in> set df. amount row \<in> \<int> \<Longrightarrow> day_total df d \<in> \<int>"
  unfolding day_total_def by (intro sum_list_Ints) (auto simp: signed_amount_Ints)

lemma abs_day_total:
  "\<bar>day_total df d\<bar> \<le> sum_list (map (\<lambda>row. \<bar>amount row\<bar>) (filter (\<lambda>row. date row = d) df))"
proof -
  have "\<bar>day_total df d\<bar> \<le>
        sum_list (map abs (map signed_amount (filter (\<lambda>row. date row = d) df)))"
    unfolding day_total_def by (rule abs_sum_list_le)
  then show ?thesis by (simp add: comp_def abs_signed_amount)
qed

lemma abs_day_totals_le:
  "sum_list (map (\<lambda>j. \<bar>day_total df (s + int j * day)\<bar>) [0..<n]) \<le>
   sum_list (map (\<lambda>row. \<bar>amount row\<bar>) df)"
proof -
  have "sum_list (map (\<lambda>j. \<bar>day_total df (s + int j * day)\<bar>) [0..<n]) \<le>
        sum_list (map (\<lambda>j. sum_list (map (\<lambda>row. \<bar>amount row\<bar>)
          (filter (\<lambda>row. date row = s + int j * day) df))) [0..<n])"
    by (rule sum_list_mono) (rule abs_day_total)
  also have "\<dots> = sum_list (map (\<lambda>row. \<bar>amount row\<bar>)
          (filter (\<lambda>row. \<exists>j<n. date row = s + int j * day) df))"
    by (rule sum_grid)
  also have "\<dots> \<le> sum_list (map (\<lambda>row. \<bar>amount row\<bar>) df)"
    by (rule sum_list_filter_le) simp
  finally show ?thesis .
qed

lemma foldl_col_add_whole:
  assumes "exact_on_whole ar"
    and "a \<in> \<int>" and "\<forall>x \<in> set xs. x \<in> \<int>" and "\<bar>a\<bar> + sum_list (map abs xs) \<le> 2 ^ 53"
  shows "foldl (col_add ar) a xs = a + sum_list xs"
  using assms(2-)
proof (induction xs arbitrary: a)
  case Nil
  then show ?case by simp
next
  case (Cons x xs)
  have nn: "0 \<le> sum_list (map abs xs)" by (rule sum_list_nonneg) auto
  with Cons.prems have "a \<in> \<int> \<and> x \<in> \<int> \<and> \<bar>a\<bar> + \<bar>x\<bar> \<le> 2 ^ 53" by simp
  with assms(1) have step: "col_add ar a x = a + x" unfolding exact_on_whole_def by blast
  have "foldl (col_add ar) (a + x) xs = a + x + sum_list xs"
    using Cons.prems by (intro Cons.IH) auto
  with step show ?case by simp
qed

text \<open>The running sums of exact day totals are exact.\<close>

lemma cumsum_exact:
  assumes "exact_on_whole ar" and "\<forall>row \<in> set df. amount row \<in> \<int>"
    and "sum_list (map (\<lambda>row. \<bar>amount row\<bar>) df) \<le> 2 ^ 53" and "i < n"
  shows "cumsum ar (map (\<lambda>j. day_total df (s + int j * day)) [0..<n]) ! i =
         sum_list (map (\<lambda>j. day_total df (s + int j * day)) [0..<Suc i])"
proof -
  define t where "t = (\<lambda>j. day_total df (s + int j * day))"
  have n: "0 < n" using assms(4) by simp
  have hd: "hd (map t [0..<n]) = t 0" using n by (simp add: hd_map upt_conv_Cons)
  have tl: "take i (tl (map t [0..<n])) = map t [1..<Suc i]"
  proof -
    have "tl (map t [0..<n]) = map t [1..<n]" using n by (simp add: upt_conv_Cons)
    then show ?thesis using assms(4) by (simp add: take_map del: upt_Suc)
  qed
  have split: "[0..<Suc i] = 0 # [1..<Suc i]" by (simp add: upt_conv_Cons del: upt_Suc)
  have "\<bar>t 0\<bar> + sum_list (map abs (map t [1..<Suc i])) =
        sum_list (map (\<lambda>j. \<bar>t j\<bar>) [0..<Suc i])"
    unfolding split by (simp add: comp_def del: upt_Suc)
  also have "\<dots> \<le> sum_list (map (\<lambda>row. \<bar>amount row\<bar>) df)"
    unfolding t_def by (rule abs_day_totals_le)
  finally have bound: "\<bar>t 0\<bar> + sum_list (map abs (map t [1..<Suc i])) \<le> 2 ^ 53"
    using assms(3) by simp
  have ints: "t 0 \<in> \<int>" "\<forall>x \<in> set (map t [1..<Suc i]). x \<in> \<int>"
    using assms(2) by (auto simp: t_def day_total_Ints simp del: upt_Suc)
  have "cumsum ar (map t [0..<n]) ! i = foldl (col_add ar) (t 0) (map t [1..<Suc i])"
    using assms(4) by (simp add: nth_cumsum hd tl del: upt_Suc)
  also have "\<dots> = t 0 + sum_list (map t [1..<Suc i])"
    by (rule foldl_col_add_whole [OF assms(1) ints bound])
  also have "\<dots> = sum_list (map t [0..<Suc i])"
    unfolding split by simp
  finally show ?thesis unfolding t_def .
qed

text \<open>
  The forecast of a ledger of whole amounts: exact day totals, and the starting balance
  plus the exact running total.
\<close>

lemma forecast_exact:
  assumes "df \<noteq> []" and "exact_on_whole ar" and "whole_within sb df"
    and "forecast_df ar sb df = Inr rows" and "i < 90"
  shows "rows ! i = \<lparr>fc_date = Min (date ` set df) + int i * day,
                     fc_daily_net = day_total df (Min (date ` set df) + int i * day),
                     fc_balance = sb + sum_list (map (\<lambda>j. day_total df (Min (date ` set df) + int j * day))
                                         [0..<Suc i])\<rparr>"
proof -
  define s where "s = Min (date ` set df)"
  define t where "t = (\<lambda>j. day_total df (s + int j * day))"
  have w: "\<forall>row \<in> set df. amount row \<in> \<int>" "sb \<in> \<int>"
    "\<bar>sb\<bar> + sum_list (map (\<lambda>row. \<bar>amount row\<bar>) df) \<le> 2 ^ 53"
    using assms(3) by (simp_all add: whole_within_def)
  then have b: "sum_list (map (\<lambda>row. \<bar>amount row\<bar>) df) \<le> 2 ^ 53" by linarith
  have net: "day_net ar df d = day_total df d" for d
    by (rule day_net_exact [OF assms(2) w(1) b])
  have nets: "map fc_daily_net rows = map t [0..<90]"
    unfolding forecast_daily_nets [OF assms(1,4)] t_def s_def by (simp only: net)
  have c: "cumsum ar (map t [0..<90]) ! i = sum_list (map t [0..<Suc i])"
    unfolding t_def by (rule cumsum_exact [OF assms(2) w(1) b assms(5)])
  have ci: "sum_list (map t [0..<Suc i]) \<in> \<int>"
    by (intro sum_list_Ints) (auto simp: t_def day_total_Ints [OF w(1)] simp del: upt_Suc)
  have "\<bar>sum_list (map t [0..<Suc i])\<bar> \<le> sum_list (map abs (map t [0..<Suc i]))"
    by (rule abs_sum_list_le)
  also have "\<dots> = sum_list (map (\<lambda>j. \<bar>t j\<bar>) [0..<Suc i])" by (simp add: comp_def del: upt_Suc)
  also have "\<dots> \<le> sum_list (map (\<lambda>row. \<bar>amount row\<bar>) df)"
    unfolding t_def by (rule abs_day_totals_le)
  finally have cb: "\<bar>sum_list (map t [0..<Suc i])\<bar> \<le> sum_list (map (\<lambda>row. \<bar>amount row\<bar>) df)" .
  with b have "sum_list (map t [0..<Suc i]) \<in> \<int> \<and> \<bar>sum_list (map t [0..<Suc i])\<bar> \<le> 2 ^ 53"
    using ci by simp
  with assms(2) have tf: "to_float64 ar (sum_list (map t [0..<Suc i])) = sum_list (map t [0..<Suc i])"
    unfolding exact_on_whole_def by blast
  have "sb + sum_list (map t [0..<Suc i]) \<in> \<int>" using w(2) ci by simp
  moreover have "\<bar>sb + sum_list (map t [0..<Suc i])\<bar> \<le> 2 ^ 53" using cb w(3) by linarith
  ultimately have "fl (sb + sum_list (map t [0..<Suc i])) = sb + sum_list (map t [0..<Suc i])"
    by (rule fl_whole)
  then have "fadd sb (to_float64 ar (cumsum ar (map fc_daily_net rows) ! i)) =
             sb + sum_list (map t [0..<Suc i])"
    by (simp only: nets c tf fadd_def)
  then show ?thesis
    using forecast_row_nth [OF assms(1,4,5)] by (simp only: net t_def s_def)
qed

lemma running_total_whole:
  assumes "\<forall>row \<in> set df. amount row \<in> \<int>"
  shows "sum_list (map (\<lambda>j. day_total df (s + int j * day)) [0..<n]) \<in> \<int>"
    and "\<bar>sum_list (map (\<lambda>j. day_total df (s + int j * day)) [0..<n])\<bar> \<le>
         sum_list (map (\<lambda>row. \<bar>amount row\<bar>) df)"
proof -
  show "sum_list (map (\<lambda>j. day_total df (s + int j * day)) [0..<n]) \<in> \<int>"
    by (intro sum_list_Ints) (auto simp: day_total_Ints [OF assms])
  have "\<bar>sum_list (map (\<lambda>j. day_total df (s + int j * day)) [0..<n])\<bar> \<le>
        sum_list (map abs (map (\<lambda>j. day_total df (s + int j * day)) [0..<n]))"
    by (rule abs_sum_list_le)
  also have "\<dots> = sum_list (map (\<lambda>j. \<bar>day_total df (s + int j * day)\<bar>) [0..<n])"
    by (simp add: comp_def)
  also have "\<dots> \<le> sum_list (map (\<lambda>row. \<bar>amount row\<bar>) df)"
    by (rule abs_day_totals_le)
  finally show "\<bar>sum_list (map (\<lambda>j. day_total df (s + int j * day)) [0..<n])\<bar> \<le>
         sum_list (map (\<lambda>row. \<bar>amount row\<bar>) df)" .
qed

text \<open>Row \<open>i\<close> of the forecast, with the running sum written out.\<close>

lemma forecast_rows_nth:
  assumes "df \<noteq> []" and "i < 90"
  shows "forecast_rows ar sb df ! i =
     \<lparr>fc_date = Min (date ` set df) + int i * day,
      fc_daily_net = day_net ar df (Min (date ` set df) + int i * day),
      fc_balance = fadd sb (to_float64 ar
        (foldl (col_add ar) (day_net ar df (Min (date ` set df)))
           (map (\<lambda>j. day_net ar df (Min (date ` set df) + int j * day)) [1..<Suc i])))\<rparr>"
proof -
  define s where "s = Min (date ` set df)"
  define t where "t = (\<lambda>j. day_net ar df (s + int j * day))"
  from forecast_returns [OF assms(1)] obtain rows where r: "forecast_df ar sb df = Inr rows" ..
  have nets: "map fc_daily_net rows = map t [0..<90]"
    unfolding forecast_daily_nets [OF assms(1) r] t_def s_def ..
  have hd: "hd (map t [0..<90]) = t 0" by (simp add: hd_map upt_conv_Cons)
  have "tl (map t [0..<90]) = map t [1..<90]" by (simp add: upt_conv_Cons)
  then have tl: "take i (tl (map t [0..<90])) = map t [1..<Suc i]"
    using assms(2) by (simp add: take_map del: upt_Suc)
  have "cumsum ar (map fc_daily_net rows) ! i = foldl (col_add ar) (t 0) (map t [1..<Suc i])"
    unfolding nets using assms(2) by (simp add: nth_cumsum hd tl del: upt_Suc)
  then have "rows ! i = \<lparr>fc_date = s + int i * day, fc_daily_net = t i,
      fc_balance = fadd sb (to_float64 ar (foldl (col_add ar) (t 0) (map t [1..<Suc i])))\<rparr>"
    using forecast_row_nth [OF assms(1) r assms(2)] by (simp only: s_def t_def)
  then show ?thesis
    unfolding forecast_rows_eq [OF r] t_def s_def by simp
qed

section \<open>The balance column\<close>

text \<open>
  Claim C2, as the code has it. For a ledger with at least one row and any starting
  balance, the balance of the first row is the float sum of the starting balance and that
  row's daily net, and the balance of row \<open>i\<close> is the float sum of the starting balance
  and the running sum of the daily nets up to row \<open>i\<close>, added one by one in the
  arithmetic of the column. The balance of a row is the balance of the row before it plus
  its own daily net when nothing is rounded on the way: so it is for whole amounts and a
  whole starting balance that stay within \<open>2^53\<close>.
\<close>

theorem balance_is_start_plus_running_sum:
  assumes "df \<noteq> []"
  shows "\<exists>rows. forecast_df ar sb df = Inr rows \<and> length rows = 90 \<and>
     fc_balance (rows ! 0) = fadd sb (to_float64 ar (fc_daily_net (rows ! 0))) \<and>
     (\<forall>i<90. fc_balance (rows ! i) =
        fadd sb (to_float64 ar
          (foldl (col_add ar) (fc_daily_net (rows ! 0)) (map fc_daily_net (take i (tl rows)))))) \<and>
     (exact_on_whole ar \<and> whole_within sb df \<longrightarrow>
        (\<forall>i. 0 < i \<and> i < 90 \<longrightarrow>
           fc_balance (rows ! i) = fc_balance (rows ! (i - 1)) + fc_daily_net (rows ! i) \<and>
           fc_balance (rows ! i) =
             fadd (fc_balance (rows ! (i - 1))) (to_float64 ar (fc_daily_net (rows ! i)))))"
proof -
  define s where "s = Min (date ` set df)"
  define t where "t = (\<lambda>j. day_total df (s + int j * day))"
  from forecast_returns [OF assms] obtain rows where r: "forecast_df ar sb df = Inr rows" ..
  have len: "length rows = 90" by (rule forecast_length [OF assms r])
  have run: "fc_balance (rows ! i) =
        fadd sb (to_float64 ar
          (foldl (col_add ar) (fc_daily_net (rows ! 0)) (map fc_daily_net (take i (tl rows)))))"
    if i: "i < 90" for i
  proof -
    have "rows \<noteq> []" using len by auto
    then have "hd (map fc_daily_net rows) = fc_daily_net (rows ! 0)"
      by (simp add: hd_map hd_conv_nth)
    moreover have "take i (tl (map fc_daily_net rows)) = map fc_daily_net (take i (tl rows))"
      by (metis map_tl take_map)
    ultimately have "cumsum ar (map fc_daily_net rows) ! i =
        foldl (col_add ar) (fc_daily_net (rows ! 0)) (map fc_daily_net (take i (tl rows)))"
      using i len by (simp add: nth_cumsum)
    then show ?thesis using forecast_row_nth [OF assms r i] by simp
  qed
  have first: "fc_balance (rows ! 0) = fadd sb (to_float64 ar (fc_daily_net (rows ! 0)))"
    using run [of 0] by simp
  have exact: "fc_balance (rows ! i) = fc_balance (rows ! (i - 1)) + fc_daily_net (rows ! i) \<and>
           fc_balance (rows ! i) =
             fadd (fc_balance (rows ! (i - 1))) (to_float64 ar (fc_daily_net (rows ! i)))"
    if e: "exact_on_whole ar \<and> whole_within sb df" and i: "0 < i \<and> i < 90" for i
  proof -
    from i obtain k where k: "i = Suc k" "k < 90" "Suc k < 90" by (cases i) auto
    have w: "\<forall>row \<in> set df. amount row \<in> \<int>" "sb \<in> \<int>"
      "\<bar>sb\<bar> + sum_list (map (\<lambda>row. \<bar>amount row\<bar>) df) \<le> 2 ^ 53"
      using e by (simp_all add: whole_within_def)
    have old: "rows ! k = \<lparr>fc_date = s + int k * day, fc_daily_net = t k,
                 fc_balance = sb + sum_list (map t [0..<Suc k])\<rparr>"
      using forecast_exact [OF assms _ _ r k(2)] e by (simp only: s_def t_def)
    have new: "rows ! Suc k = \<lparr>fc_date = s + int (Suc k) * day, fc_daily_net = t (Suc k),
                 fc_balance = sb + sum_list (map t [0..<Suc (Suc k)])\<rparr>"
      using forecast_exact [OF assms _ _ r k(3)] e by (simp only: s_def t_def)
    have step: "fc_balance (rows ! Suc k) = fc_balance (rows ! k) + fc_daily_net (rows ! Suc k)"
      unfolding old new by simp
    have "t (Suc k) \<in> \<int>" unfolding t_def by (rule day_total_Ints [OF w(1)])
    moreover have "\<bar>t (Suc k)\<bar> \<le> sum_list (map (\<lambda>row. \<bar>amount row\<bar>) df)"
    proof -
      have "\<bar>t (Suc k)\<bar> \<le> sum_list (map (\<lambda>row. \<bar>amount row\<bar>)
              (filter (\<lambda>row. date row = s + int (Suc k) * day) df))"
        unfolding t_def by (rule abs_day_total)
      also have "\<dots> \<le> sum_list (map (\<lambda>row. \<bar>amount row\<bar>) df)"
        by (rule sum_list_filter_le) simp
      finally show ?thesis .
    qed
    ultimately have "t (Suc k) \<in> \<int> \<and> \<bar>t (Suc k)\<bar> \<le> 2 ^ 53" using w(3) by linarith
    with e have tf: "to_float64 ar (t (Suc k)) = t (Suc k)"
      unfolding exact_on_whole_def by blast
    have "sb + sum_list (map t [0..<Suc (Suc k)]) \<in> \<int>"
      using w(2) running_total_whole(1) [OF w(1), of s "Suc (Suc k)"] unfolding t_def
      by (intro Ints_add)
    moreover have "\<bar>sb + sum_list (map t [0..<Suc (Suc k)])\<bar> \<le> 2 ^ 53"
      using w(3) running_total_whole(2) [OF w(1), of s "Suc (Suc k)"] unfolding t_def
      by linarith
    ultimately have ex: "fl (sb + sum_list (map t [0..<Suc (Suc k)])) =
                     sb + sum_list (map t [0..<Suc (Suc k)])"
      by (rule fl_whole)
    have tot: "fc_balance (rows ! k) + fc_daily_net (rows ! Suc k) =
               sb + sum_list (map t [0..<Suc (Suc k)])"
      unfolding old new by simp
    have "fadd (fc_balance (rows ! k)) (to_float64 ar (fc_daily_net (rows ! Suc k))) =
          fl (fc_balance (rows ! k) + fc_daily_net (rows ! Suc k))"
      by (simp add: fadd_def new tf)
    also have "\<dots> = fc_balance (rows ! Suc k)"
      unfolding tot ex by (simp add: new)
    finally have "fadd (fc_balance (rows ! k)) (to_float64 ar (fc_daily_net (rows ! Suc k))) =
               fc_balance (rows ! Suc k)" .
    with step show ?thesis unfolding k(1) by simp
  qed
  from r len first run exact show ?thesis by blast
qed

text \<open>
  On \<open>ledger_a\<close>, a float64 column of whole amounts, with starting balance 500: nothing
  is rounded and the second balance is the first plus the second daily net.
\<close>

theorem balance_is_start_plus_running_sum_witness:
  "ledger_a \<noteq> [] \<and> exact_on_whole float64 \<and> whole_within 500 ledger_a \<and>
   (\<exists>rows. forecast_df float64 500 ledger_a = Inr rows \<and>
      fc_balance (rows ! 0) = fadd 500 (to_float64 float64 (fc_daily_net (rows ! 0))) \<and>
      fc_balance (rows ! 1) = fc_balance (rows ! 0) + fc_daily_net (rows ! 1))"
proof -
  have ne: "ledger_a \<noteq> []" by (simp add: ledger_a_def)
  have w: "whole_within 500 ledger_a" by (simp add: whole_within_def ledger_a_def)
  from balance_is_start_plus_running_sum [OF ne, of float64 500] obtain rows
    where "forecast_df float64 500 ledger_a = Inr rows"
      and "fc_balance (rows ! 0) = fadd 500 (to_float64 float64 (fc_daily_net (rows ! 0)))"
      and "exact_on_whole float64 \<and> whole_within 500 ledger_a \<longrightarrow>
        (\<forall>i. 0 < i \<and> i < 90 \<longrightarrow>
           fc_balance (rows ! i) = fc_balance (rows ! (i - 1)) + fc_daily_net (rows ! i) \<and>
           fc_balance (rows ! i) =
             fadd (fc_balance (rows ! (i - 1))) (to_float64 float64 (fc_daily_net (rows ! i))))"
    by blast
  moreover from this(3) exact_on_whole_float64 w
  have "fc_balance (rows ! 1) = fc_balance (rows ! (1 - 1)) + fc_daily_net (rows ! 1)"
    by (simp del: One_nat_def)
  ultimately show ?thesis using ne w exact_on_whole_float64 by auto
qed

lemma float64_sel:
  "col_sum float64 = foldl fadd 0" "col_add float64 = fadd" "to_float64 float64 = (\<lambda>x. x)"
  by (simp_all add: float64_def)

text \<open>
  The claim as written fails on \<open>ledger_d\<close> read as float64, with starting balance 5000:
  the daily nets are 0.01 and 0.02, the second balance is 5000.03 (the float of
  \<open>5000 + (0.01 + 0.02)\<close>), and the first balance plus the second daily net is the next
  float above it, 5000.030000000001.
\<close>

theorem balance_recurrence_rounding_counterexample:
  "fc_balance (forecast_rows float64 5000 ledger_d ! 1) = 5497591124228833 / 1099511627776 \<and>
   fadd (fc_balance (forecast_rows float64 5000 ledger_d ! 0))
        (fc_daily_net (forecast_rows float64 5000 ledger_d ! 1)) = 2748795562114417 / 549755813888 \<and>
   fc_balance (forecast_rows float64 5000 ledger_d ! 1) \<noteq>
     fadd (fc_balance (forecast_rows float64 5000 ledger_d ! 0))
          (fc_daily_net (forecast_rows float64 5000 ledger_d ! 1)) \<and>
   fc_balance (forecast_rows float64 5000 ledger_d ! 1) \<noteq>
     fc_balance (forecast_rows float64 5000 ledger_d ! 0) +
     fc_daily_net (forecast_rows float64 5000 ledger_d ! 1)"
proof -
  have ne: "ledger_d \<noteq> []" by (simp add: ledger_d_def)
  have m: "Min (date ` set ledger_d) = 0" by (simp add: ledger_d_def day_def)
  have a: "fl (1 / 100) = 5764607523034235 / 576460752303423488"
    by (simp add: fl_def fl_up_unfold py_round_def)
  have b: "fl (1 / 50) = 5764607523034235 / 288230376151711744"
    by (simp add: fl_def fl_up_unfold py_round_def)
  have a': "fl (5764607523034235 / 576460752303423488) = 5764607523034235 / 576460752303423488"
    by (simp add: fl_def fl_up_unfold py_round_def)
  have b': "fl (5764607523034235 / 288230376151711744) = 5764607523034235 / 288230376151711744"
    by (simp add: fl_def fl_up_unfold py_round_def)
  have n0: "day_net float64 ledger_d 0 = 5764607523034235 / 576460752303423488"
    by (simp add: day_net_def ledger_d_def day_def signed_amount_def lower_def lower_char_def
        float64_def fadd_def a a')
  have n1: "day_net float64 ledger_d day = 5764607523034235 / 288230376151711744"
    by (simp add: day_net_def ledger_d_def day_def signed_amount_def lower_def lower_char_def
        float64_def fadd_def b b')
  have f0: "fadd 5000 (5764607523034235 / 576460752303423488) = 2748784566998139 / 549755813888"
    by (simp add: fadd_def fl_def fl_up_unfold py_round_def)
  have f1: "fadd (5764607523034235 / 576460752303423488) (5764607523034235 / 288230376151711744) =
        1080863910568919 / 36028797018963968"
    by (simp add: fadd_def fl_def fl_up_unfold py_round_def)
  have f2: "fadd 5000 (1080863910568919 / 36028797018963968) = 5497591124228833 / 1099511627776"
    by (simp add: fadd_def fl_def fl_up_unfold py_round_def)
  have f3: "fadd (2748784566998139 / 549755813888) (5764607523034235 / 288230376151711744) =
           2748795562114417 / 549755813888"
    by (simp add: fadd_def fl_def fl_up_unfold py_round_def)
  have i0: "[1..<Suc 0] = []" "0 + int 0 * day = 0" by simp_all
  have i1: "[1..<Suc 1] = [1]" "0 + int 1 * day = day" by simp_all
  have lt: "(0::nat) < 90" "(1::nat) < 90" by simp_all
  have r0: "forecast_rows float64 5000 ledger_d ! 0 =
      \<lparr>fc_date = 0, fc_daily_net = 5764607523034235 / 576460752303423488,
       fc_balance = 2748784566998139 / 549755813888\<rparr>"
    unfolding forecast_rows_nth [OF ne lt(1), of float64 5000] m i0
    by (simp only: list.map foldl.simps float64_sel n0 f0)
  have r1: "forecast_rows float64 5000 ledger_d ! 1 =
      \<lparr>fc_date = day, fc_daily_net = 5764607523034235 / 288230376151711744,
       fc_balance = 5497591124228833 / 1099511627776\<rparr>"
    unfolding forecast_rows_nth [OF ne lt(2), of float64 5000] m i1
    by (simp only: list.map foldl.simps float64_sel i1 n0 n1 f1 f2)
  show ?thesis unfolding r0 r1 by (simp add: f3)
qed

section \<open>The daily nets\<close>






section \<open>Negative amounts\<close>







section \<open>The sign rule\<close>

text \<open>
  Claim C4, as the code has it. The signed amount is the negated amount exactly when the
  type, lower-cased, is \<open>expense\<close>, and the amount itself for every other type: for
  \<open>income\<close> in any letter case, and also for a type that is neither of the two.
\<close>

theorem signed_amount_sign_rule:
  "(lower (type row) = ''expense'' \<longrightarrow> signed_amount row = - amount row) \<and>
   (lower (type row) \<noteq> ''expense'' \<longrightarrow> signed_amount row = amount row) \<and>
   (lower (type row) = ''income'' \<longrightarrow> signed_amount row = amount row)"
  by (auto simp: signed_amount_def)

theorem signed_amount_sign_rule_witness:
  "lower (type (ledger_a ! 1)) = ''expense'' \<and> signed_amount (ledger_a ! 1) = - 200 \<and>
   lower ''INCOME'' = ''income'' \<and>
   signed_amount \<lparr>date = 3, type = ''INCOME'', amount = 75, client_or_vendor = None\<rparr> = 75"
proof -
  have e: "lower (type (ledger_a ! 1)) = ''expense''"
    by (simp add: ledger_a_def lower_def lower_char_def)
  have i: "lower (type \<lparr>date = 3, type = ''INCOME'', amount = 75, client_or_vendor = None\<rparr>) = ''income''"
    by (simp add: lower_def lower_char_def)
  have "amount (ledger_a ! 1) = 200" by (simp add: ledger_a_def)
  with e i signed_amount_sign_rule [of "ledger_a ! 1"]
    signed_amount_sign_rule [of "\<lparr>date = 3, type = ''INCOME'', amount = 75, client_or_vendor = None\<rparr>"]
  show ?thesis by simp
qed

text \<open>
  The claim as written fails on a row whose type is neither income nor expense: its type is
  not income, yet its signed amount is the amount, not the negated amount.
\<close>

theorem signed_amount_other_type_counterexample:
  "lower (type \<lparr>date = 3, type = ''refund'', amount = 50, client_or_vendor = None\<rparr>) \<noteq> ''income'' \<and>
   signed_amount \<lparr>date = 3, type = ''refund'', amount = 50, client_or_vendor = None\<rparr> = 50 \<and>
   signed_amount \<lparr>date = 3, type = ''refund'', amount = 50, client_or_vendor = None\<rparr> \<noteq>
     - amount \<lparr>date = 3, type = ''refund'', amount = 50, client_or_vendor = None\<rparr>"
  by (simp add: signed_amount_def lower_def lower_char_def)

section \<open>Facts about the big expense days\<close>

lemma set_sort_values_desc: "set (sort_values_desc key xs) = set xs"
  by (simp add: sort_values_desc_def)

lemma sorted_sort_values_desc:
  "sorted_wrt (\<lambda>a b. key b \<le> key a) (sort_values_desc key xs)"
proof -
  have "sorted (map key (sort_key key (rev xs)))" by simp
  then have "sorted_wrt (\<lambda>a b. key a \<le> key b) (sort_key key (rev xs))"
    by (simp add: sorted_map)
  then show ?thesis by (simp add: sort_values_desc_def sorted_wrt_rev)
qed

text \<open>
  Claim C7. For every list of forecast rows, the table of the top expense days holds only
  rows of the list whose daily net is negative, has at most 10 rows, and is in descending
  order of the absolute daily net.
\<close>

theorem top_expense_days_spec:
  "set (top_expense_days fc) \<subseteq> {r \<in> set fc. fc_daily_net r < 0} \<and>
   length (top_expense_days fc) \<le> 10 \<and>
   sorted_wrt (\<lambda>a b. \<bar>fc_daily_net b\<bar> \<le> \<bar>fc_daily_net a\<bar>) (top_expense_days fc)"
proof (intro conjI)
  have "set (top_expense_days fc) \<subseteq> set (sort_values_desc abs_expense (expense_days fc))"
    unfolding top_expense_days_def by (rule set_take_subset)
  also have "\<dots> = {r \<in> set fc. fc_daily_net r < 0}"
    by (simp add: set_sort_values_desc expense_days_def)
  finally show "set (top_expense_days fc) \<subseteq> {r \<in> set fc. fc_daily_net r < 0}" .
next
  show "length (top_expense_days fc) \<le> 10" by (simp add: top_expense_days_def)
next
  have "sorted_wrt (\<lambda>a b. abs_expense b \<le> abs_expense a)
          (sort_values_desc abs_expense (expense_days fc))"
    by (rule sorted_sort_values_desc)
  then have "sorted_wrt (\<lambda>a b. abs_expense b \<le> abs_expense a) (top_expense_days fc)"
    unfolding top_expense_days_def by (rule sorted_wrt_take)
  then show "sorted_wrt (\<lambda>a b. \<bar>fc_daily_net b\<bar> \<le> \<bar>fc_daily_net a\<bar>) (top_expense_days fc)"
    by (simp add: abs_expense_def)
qed

text \<open>
  On twelve rows, eleven of them with a negative daily net: the row with the positive net
  and the smallest of the eleven expenses are left out.
\<close>

theorem top_expense_days_spec_witness:
  "map fc_date (top_expense_days
     (map (\<lambda>i. \<lparr>fc_date = i, fc_daily_net = (if i = 3 then 8 else - real_of_int i), fc_balance = 0\<rparr>)
        [1..12])) = [12, 11, 10, 9, 8, 7, 6, 5, 4, 2] \<and>
   length (top_expense_days
     (map (\<lambda>i. \<lparr>fc_date = i, fc_daily_net = (if i = 3 then 8 else - real_of_int i), fc_balance = 0\<rparr>)
        [1..12])) \<le> 10"
  using top_expense_days_spec [of "map (\<lambda>i. \<lparr>fc_date = i, fc_daily_net = (if i = 3 then 8 else - real_of_int i), fc_balance = 0\<rparr>)
        [1..12]"]
  by (simp add: top_expense_days_def sort_values_desc_def expense_days_def abs_expense_def upto.simps)

section \<open>The columns of the invoices file\<close>

lemma late_tab_SchemaError:
  "late_tab columns inv_rows = SchemaError \<longleftrightarrow> \<not> required_invoice_cols \<subseteq> set columns"
  by (simp add: late_tab_def Let_def)

text \<open>
  Claim C8, as the code has it. The late-paying-clients computation stops with the schema
  error exactly when one of the columns \<open>client\<close>, \<open>issue_date\<close>, \<open>due_date\<close>,
  \<open>paid_date\<close>, \<open>amount\<close> is absent. The column \<open>invoice_id\<close> is not looked at: taking
  it out of the columns changes nothing in the result.
\<close>

theorem invoice_schema_check:
  "(late_tab columns inv_rows = SchemaError \<longleftrightarrow>
      ''client'' \<notin> set columns \<or> ''issue_date'' \<notin> set columns \<or> ''due_date'' \<notin> set columns \<or>
      ''paid_date'' \<notin> set columns \<or> ''amount'' \<notin> set columns) \<and>
   late_tab (filter (\<lambda>c. c \<noteq> ''invoice_id'') columns) inv_rows = late_tab columns inv_rows"
proof
  show "late_tab columns inv_rows = SchemaError \<longleftrightarrow>
      ''client'' \<notin> set columns \<or> ''issue_date'' \<notin> set columns \<or> ''due_date'' \<notin> set columns \<or>
      ''paid_date'' \<notin> set columns \<or> ''amount'' \<notin> set columns"
    unfolding late_tab_SchemaError by (auto simp: required_invoice_cols_def)
next
  have "required_invoice_cols \<subseteq> set (filter (\<lambda>c. c \<noteq> ''invoice_id'') columns) \<longleftrightarrow>
        required_invoice_cols \<subseteq> set columns"
    by (auto simp: required_invoice_cols_def)
  then show "late_tab (filter (\<lambda>c. c \<noteq> ''invoice_id'') columns) inv_rows = late_tab columns inv_rows"
    by (simp add: late_tab_def)
qed

text \<open>A file with no \<open>paid_date\<close> column is stopped at the check.\<close>

theorem invoice_schema_check_witness:
  "''paid_date'' \<notin> set [''invoice_id'', ''client'', ''issue_date'', ''due_date'', ''amount''] \<and>
   late_tab [''invoice_id'', ''client'', ''issue_date'', ''due_date'', ''amount'']
     [\<lparr>client = ''c1'', issue_date = 0, due_date = 10 * day, paid_date = Some (15 * day)\<rparr>] = SchemaError"
  using invoice_schema_check
    [of "[''invoice_id'', ''client'', ''issue_date'', ''due_date'', ''amount'']"
        "[\<lparr>client = ''c1'', issue_date = 0, due_date = 10 * day, paid_date = Some (15 * day)\<rparr>]"]
  by simp

text \<open>
  The claim as written fails on a file that has every column but \<open>invoice_id\<close>: it passes
  the check and the delays are computed (one invoice paid 5 days late, one 3 days early,
  mean delay 1).
\<close>

theorem invoice_id_not_required_counterexample:
  "''invoice_id'' \<notin> set [''client'', ''issue_date'', ''due_date'', ''paid_date'', ''amount''] \<and>
   late_tab [''client'', ''issue_date'', ''due_date'', ''paid_date'', ''amount'']
     [\<lparr>client = ''c1'', issue_date = 0, due_date = 10 * day, paid_date = Some (15 * day)\<rparr>,
      \<lparr>client = ''c1'', issue_date = 0, due_date = 10 * day, paid_date = Some (7 * day)\<rparr>] = LateStats [(''c1'', 1)] \<and>
   late_tab [''client'', ''issue_date'', ''due_date'', ''paid_date'', ''amount'']
     [\<lparr>client = ''c1'', issue_date = 0, due_date = 10 * day, paid_date = Some (15 * day)\<rparr>,
      \<lparr>client = ''c1'', issue_date = 0, due_date = 10 * day, paid_date = Some (7 * day)\<rparr>] \<noteq> SchemaError"
  by (simp add: late_tab_def required_invoice_cols_def mean_delay_by_client_def delay_days_def
      sort_values_desc_def np_round_def day_def Let_def)
    (simp add: fl_def fl_up_unfold py_round_def)

section \<open>Facts about the recurring expenses\<close>

lemma map_insort_key: "map f (insort_key f x xs) = insort (f x) (map f xs)"
  by (induction xs) simp_all

lemma map_sort_key: "map f (sort_key f xs) = sort (map f xs)"
  by (induction xs) (simp_all add: map_insort_key)

lemma vendor_group_dates:
  "map date (sort_key date (vendor_group (expenses_only df) v)) = expense_dates_of df v"
  by (simp add: map_sort_key vendor_group_def expenses_only_def expense_dates_of_def conj_commute)

lemma length_vendor_group:
  "length (vendor_group (expenses_only df) v) = length (expense_dates_of df v)"
  by (simp add: vendor_group_dates [symmetric])

lemma length_gaps_of: "length (gaps_of dates) = length dates - 1"
  by (simp add: gaps_of_def)

lemma recurring_record_of_Some:
  assumes "recurring_record_of ar v grp = Some r"
  shows "vendor r = v \<and> 3 \<le> length grp \<and>
         5 \<le> avg_gap_of (map date (sort_key date grp)) \<and>
         avg_gap_of (map date (sort_key date grp)) \<le> 45 \<and>
         frequency r = freq_label (avg_gap_of (map date (sort_key date grp)))"
  using assms unfolding recurring_record_of_def Let_def
  by (auto split: if_splits)

lemma recurring_record_of_qualifying:
  assumes "3 \<le> length grp"
    and "5 \<le> avg_gap_of (map date (sort_key date grp))"
    and "avg_gap_of (map date (sort_key date grp)) \<le> 45"
  shows "\<exists>r. recurring_record_of ar v grp = Some r \<and> vendor r = v \<and>
             frequency r = freq_label (avg_gap_of (map date (sort_key date grp)))"
proof -
  have "gaps_of (map date (sort_key date grp)) \<noteq> []"
    using assms(1) by (simp add: length_0_conv [symmetric] length_gaps_of del: length_0_conv)
  with assms show ?thesis
    unfolding recurring_record_of_def Let_def by simp
qed

lemma set_map_filter: "set (List.map_filter f xs) = {y. \<exists>x \<in> set xs. f x = Some y}"
  by (induction xs) (auto simp: List.map_filter_simps split: option.splits)

lemma recurring_records_row:
  assumes "r \<in> set (recurring_records ar df)"
  shows "3 \<le> length (expense_dates_of df (vendor r)) \<and>
         5 \<le> avg_gap_of (expense_dates_of df (vendor r)) \<and>
         avg_gap_of (expense_dates_of df (vendor r)) \<le> 45 \<and>
         frequency r = freq_label (avg_gap_of (expense_dates_of df (vendor r)))"
proof -
  from assms obtain v
    where "recurring_record_of ar v (vendor_group (expenses_only df) v) = Some r"
    by (auto simp: recurring_records_def Let_def set_map_filter)
  from recurring_record_of_Some [OF this]
  have "vendor r = v" and "3 \<le> length (vendor_group (expenses_only df) v)"
    and "5 \<le> avg_gap_of (expense_dates_of df v)"
    and "avg_gap_of (expense_dates_of df v) \<le> 45"
    and "frequency r = freq_label (avg_gap_of (expense_dates_of df v))"
    by (simp_all only: vendor_group_dates)
  then show ?thesis by (simp add: length_vendor_group)
qed

text \<open>A vendor that passes the two checks of the loop gets a record.\<close>

lemma qualifying_vendor_emitted:
  assumes "3 \<le> length (expense_dates_of df v)"
    and "5 \<le> avg_gap_of (expense_dates_of df v)"
    and "avg_gap_of (expense_dates_of df v) \<le> 45"
  shows "\<exists>r \<in> set (recurring_records ar df). vendor r = v"
proof -
  define grp where "grp = vendor_group (expenses_only df) v"
  have len: "3 \<le> length grp" using assms(1) by (simp add: grp_def length_vendor_group)
  then have "grp \<noteq> []" by auto
  then obtain row where "row \<in> set grp" by (meson last_in_set)
  then have "row \<in> set (expenses_only df)" and "client_or_vendor row = Some v"
    by (simp_all add: grp_def vendor_group_def)
  then have key: "v \<in> set (sort (remdups (List.map_filter client_or_vendor (expenses_only df))))"
    by (auto simp: set_map_filter)
  have "5 \<le> avg_gap_of (map date (sort_key date grp))"
    and "avg_gap_of (map date (sort_key date grp)) \<le> 45"
    using assms(2,3) by (simp_all only: grp_def vendor_group_dates)
  from recurring_record_of_qualifying [OF len this, of ar v]
  obtain r where "recurring_record_of ar v grp = Some r" and "vendor r = v" by blast
  with key have "r \<in> set (recurring_records ar df)"
    unfolding recurring_records_def Let_def set_map_filter grp_def by blast
  with \<open>vendor r = v\<close> show ?thesis by blast
qed

text \<open>
  Claim C5. For every ledger, each record the detector emits is for a vendor with at least
  3 expense rows whose average gap between consecutive dates lies between 5 and 45 days;
  so no record is emitted for a vendor with fewer than 3 expense rows, nor for one whose
  average gap is below 5 or above 45 days.
\<close>

theorem recurring_records_gate:
  "(\<forall>r \<in> set (recurring_records ar df).
      3 \<le> length (expense_dates_of df (vendor r)) \<and>
      5 \<le> avg_gap_of (expense_dates_of df (vendor r)) \<and>
      avg_gap_of (expense_dates_of df (vendor r)) \<le> 45) \<and>
   (\<forall>v. length (expense_dates_of df v) < 3 \<or> avg_gap_of (expense_dates_of df v) < 5 \<or>
        45 < avg_gap_of (expense_dates_of df v) \<longrightarrow>
        v \<notin> vendor ` set (recurring_records ar df))"
proof (intro conjI ballI allI impI)
  fix r assume "r \<in> set (recurring_records ar df)"
  from recurring_records_row [OF this]
  show "3 \<le> length (expense_dates_of df (vendor r))"
    and "5 \<le> avg_gap_of (expense_dates_of df (vendor r))"
    and "avg_gap_of (expense_dates_of df (vendor r)) \<le> 45"
    by simp_all
next
  fix v
  assume out: "length (expense_dates_of df v) < 3 \<or> avg_gap_of (expense_dates_of df v) < 5 \<or>
        45 < avg_gap_of (expense_dates_of df v)"
  show "v \<notin> vendor ` set (recurring_records ar df)"
  proof
    assume "v \<in> vendor ` set (recurring_records ar df)"
    then obtain r where "r \<in> set (recurring_records ar df)" and "vendor r = v" by auto
    with recurring_records_row [of r ar df] out show False by auto
  qed
qed

lemma freq_label_bands:
  assumes "5 \<le> g" and "g \<le> 45"
  shows "(freq_label g = ''Weekly-ish'' \<longleftrightarrow> g \<le> 9) \<and>
         (freq_label g = ''Bi-weekly-ish'' \<longleftrightarrow> 10 \<le> g \<and> g \<le> 20) \<and>
         (freq_label g = ''Monthly-ish'' \<longleftrightarrow> 25 \<le> g \<and> g \<le> 35) \<and>
         (freq_label g = ''Recurring'' \<longleftrightarrow> 9 < g \<and> g < 10 \<or> 20 < g \<and> g < 25 \<or> 35 < g)"
  using assms by (auto simp: freq_label_def)

text \<open>
  Claim C6, as the code has it. Every qualifying counterparty, that is one with at least 3
  expense rows whose average gap \<open>g\<close> lies in [5, 45], gets a record, and the label of
  its record is Weekly-ish exactly when \<open>g\<close> is in [5, 9], Bi-weekly-ish exactly when in
  [10, 20], Monthly-ish exactly when in [25, 35], and Recurring exactly when \<open>g\<close> is in
  (9, 10), (20, 25) or (35, 45]. The average of whole-day gaps need not be whole, so the
  first of the three intervals is inhabited.
\<close>

theorem frequency_label_bands:
  assumes "3 \<le> length (expense_dates_of df v)"
    and "5 \<le> avg_gap_of (expense_dates_of df v)"
    and "avg_gap_of (expense_dates_of df v) \<le> 45"
  shows "(\<exists>r \<in> set (recurring_records ar df). vendor r = v) \<and>
         (\<forall>r \<in> set (recurring_records ar df). vendor r = v \<longrightarrow>
            (frequency r = ''Weekly-ish'' \<longleftrightarrow>
               5 \<le> avg_gap_of (expense_dates_of df v) \<and> avg_gap_of (expense_dates_of df v) \<le> 9) \<and>
            (frequency r = ''Bi-weekly-ish'' \<longleftrightarrow>
               10 \<le> avg_gap_of (expense_dates_of df v) \<and> avg_gap_of (expense_dates_of df v) \<le> 20) \<and>
            (frequency r = ''Monthly-ish'' \<longleftrightarrow>
               25 \<le> avg_gap_of (expense_dates_of df v) \<and> avg_gap_of (expense_dates_of df v) \<le> 35) \<and>
            (frequency r = ''Recurring'' \<longleftrightarrow>
               9 < avg_gap_of (expense_dates_of df v) \<and> avg_gap_of (expense_dates_of df v) < 10 \<or>
               20 < avg_gap_of (expense_dates_of df v) \<and> avg_gap_of (expense_dates_of df v) < 25 \<or>
               35 < avg_gap_of (expense_dates_of df v) \<and> avg_gap_of (expense_dates_of df v) \<le> 45))"
proof
  show "\<exists>r \<in> set (recurring_records ar df). vendor r = v"
    by (rule qualifying_vendor_emitted [OF assms])
next
  define g where "g = avg_gap_of (expense_dates_of df v)"
  have g: "5 \<le> g" "g \<le> 45" using assms(2,3) by (simp_all add: g_def)
  show "\<forall>r \<in> set (recurring_records ar df). vendor r = v \<longrightarrow>
            (frequency r = ''Weekly-ish'' \<longleftrightarrow>
               5 \<le> avg_gap_of (expense_dates_of df v) \<and> avg_gap_of (expense_dates_of df v) \<le> 9) \<and>
            (frequency r = ''Bi-weekly-ish'' \<longleftrightarrow>
               10 \<le> avg_gap_of (expense_dates_of df v) \<and> avg_gap_of (expense_dates_of df v) \<le> 20) \<and>
            (frequency r = ''Monthly-ish'' \<longleftrightarrow>
               25 \<le> avg_gap_of (expense_dates_of df v) \<and> avg_gap_of (expense_dates_of df v) \<le> 35) \<and>
            (frequency r = ''Recurring'' \<longleftrightarrow>
               9 < avg_gap_of (expense_dates_of df v) \<and> avg_gap_of (expense_dates_of df v) < 10 \<or>
               20 < avg_gap_of (expense_dates_of df v) \<and> avg_gap_of (expense_dates_of df v) < 25 \<or>
               35 < avg_gap_of (expense_dates_of df v) \<and> avg_gap_of (expense_dates_of df v) \<le> 45)"
  proof (intro ballI impI)
    fix r assume "r \<in> set (recurring_records ar df)" and "vendor r = v"
    with recurring_records_row [of r ar df] have f: "frequency r = freq_label g"
      by (simp add: g_def)
    from freq_label_bands [OF g] g
    show "(frequency r = ''Weekly-ish'' \<longleftrightarrow>
               5 \<le> avg_gap_of (expense_dates_of df v) \<and> avg_gap_of (expense_dates_of df v) \<le> 9) \<and>
            (frequency r = ''Bi-weekly-ish'' \<longleftrightarrow>
               10 \<le> avg_gap_of (expense_dates_of df v) \<and> avg_gap_of (expense_dates_of df v) \<le> 20) \<and>
            (frequency r = ''Monthly-ish'' \<longleftrightarrow>
               25 \<le> avg_gap_of (expense_dates_of df v) \<and> avg_gap_of (expense_dates_of df v) \<le> 35) \<and>
            (frequency r = ''Recurring'' \<longleftrightarrow>
               9 < avg_gap_of (expense_dates_of df v) \<and> avg_gap_of (expense_dates_of df v) < 10 \<or>
               20 < avg_gap_of (expense_dates_of df v) \<and> avg_gap_of (expense_dates_of df v) < 25 \<or>
               35 < avg_gap_of (expense_dates_of df v) \<and> avg_gap_of (expense_dates_of df v) \<le> 45)"
      unfolding f g_def [symmetric] by auto
  qed
qed

lemma expense_dates_ledger_b:
  "expense_dates_of ledger_b ''rent'' = [0, 30 * day, 60 * day, 90 * day]"
  "expense_dates_of ledger_b ''acme'' = [0, 9 * day, 19 * day]"
  "expense_dates_of ledger_b ''solo'' = [12 * day]"
  by (simp_all add: expense_dates_of_def ledger_b_def lower_def lower_char_def day_def)

lemma avg_gap_ledger_b:
  "avg_gap_of [0, 30 * day, 60 * day, 90 * day] = 30"
  "avg_gap_of [0, 9 * day, 19 * day] = 19 / 2"
  by (simp_all add: avg_gap_of_def gaps_of_def day_def fl_def fl_up_unfold py_round_def)

lemma recurring_records_ledger_b:
  "recurring_records float64 ledger_b =
     [\<lparr>vendor = ''acme'', avg_gap_days = 19 / 2, frequency = ''Recurring'', avg_amount = 110,
        last_payment_date = 19, next_expected_date = 29\<rparr>,
      \<lparr>vendor = ''rent'', avg_gap_days = 30, frequency = ''Monthly-ish'', avg_amount = 100,
        last_payment_date = 90, next_expected_date = 120\<rparr>]"
proof -
  have keys: "sort (remdups (List.map_filter client_or_vendor (expenses_only ledger_b))) =
              [''acme'', ''rent'', ''solo'']"
    by (simp add: ledger_b_def expenses_only_def lower_def lower_char_def List.map_filter_simps)
  have solo: "recurring_record_of float64 ''solo'' (vendor_group (expenses_only ledger_b) ''solo'') = None"
    by (simp add: recurring_record_of_def length_vendor_group expense_dates_ledger_b)
  have r1: "round_ndigits 30 (Suc 0) = 30" "round_ndigits (19 / 2) (Suc 0) = 19 / 2"
    "round_ndigits 100 2 = 100" "round_ndigits 110 2 = 110"
    by (simp_all add: round_ndigits_def py_round_def) (simp_all add: fl_def fl_up_unfold py_round_def)
  have mean: "col_mean float64 [100, 100, 100, 100] = 100" "col_mean float64 [100, 130, 100] = 110"
    by (simp_all add: float64_def fadd_def) (simp_all add: fl_def fl_up_unfold py_round_def)
  have rent: "recurring_record_of float64 ''rent'' (vendor_group (expenses_only ledger_b) ''rent'') =
      Some \<lparr>vendor = ''rent'', avg_gap_days = 30, frequency = ''Monthly-ish'', avg_amount = 100,
        last_payment_date = 90, next_expected_date = 120\<rparr>"
    unfolding recurring_record_of_def Let_def vendor_group_dates length_vendor_group
      expense_dates_ledger_b avg_gap_ledger_b
    by (simp add: gaps_of_def r1 freq_label_def py_round_def)
       (simp add: vendor_group_def expenses_only_def ledger_b_def lower_def lower_char_def day_def mean r1)
  have acme: "recurring_record_of float64 ''acme'' (vendor_group (expenses_only ledger_b) ''acme'') =
      Some \<lparr>vendor = ''acme'', avg_gap_days = 19 / 2, frequency = ''Recurring'', avg_amount = 110,
        last_payment_date = 19, next_expected_date = 29\<rparr>"
    unfolding recurring_record_of_def Let_def vendor_group_dates length_vendor_group
      expense_dates_ledger_b avg_gap_ledger_b
    by (simp add: gaps_of_def r1 freq_label_def py_round_def)
       (simp add: vendor_group_def expenses_only_def ledger_b_def lower_def lower_char_def day_def mean r1)
  show ?thesis
    unfolding recurring_records_def Let_def keys
    by (simp add: List.map_filter_simps solo rent acme)
qed


text \<open>
  On \<open>ledger_b\<close>: \<open>rent\<close> (days 0, 30, 60, 90) and \<open>acme\<close> (days 0, 9, 19) get a record,
  \<open>solo\<close>, with one expense row, gets none.
\<close>

theorem recurring_records_gate_witness:
  "map vendor (recurring_records float64 ledger_b) = [''acme'', ''rent''] \<and>
   length (expense_dates_of ledger_b ''rent'') = 4 \<and>
   avg_gap_of (expense_dates_of ledger_b ''rent'') = 30 \<and>
   length (expense_dates_of ledger_b ''solo'') < 3 \<and>
   ''solo'' \<notin> vendor ` set (recurring_records float64 ledger_b)"
proof -
  have l: "length (expense_dates_of ledger_b ''solo'') < 3"
    by (simp add: expense_dates_ledger_b)
  from recurring_records_gate [of float64 ledger_b] l
  have "''solo'' \<notin> vendor ` set (recurring_records float64 ledger_b)" by blast
  then show ?thesis
    by (simp add: expense_dates_ledger_b avg_gap_ledger_b recurring_records_ledger_b)
qed

text \<open>
  On \<open>ledger_b\<close>: \<open>rent\<close> has 4 expense rows with average gap 30; it gets a record, and
  the record is labelled Monthly-ish.
\<close>

theorem frequency_label_bands_witness:
  "3 \<le> length (expense_dates_of ledger_b ''rent'') \<and>
   5 \<le> avg_gap_of (expense_dates_of ledger_b ''rent'') \<and>
   avg_gap_of (expense_dates_of ledger_b ''rent'') \<le> 45 \<and>
   (\<exists>r \<in> set (recurring_records float64 ledger_b). vendor r = ''rent'' \<and>
      frequency r = ''Monthly-ish'')"
proof -
  have h: "3 \<le> length (expense_dates_of ledger_b ''rent'')"
    "5 \<le> avg_gap_of (expense_dates_of ledger_b ''rent'')"
    "avg_gap_of (expense_dates_of ledger_b ''rent'') \<le> 45"
    by (simp_all add: expense_dates_ledger_b avg_gap_ledger_b)
  have g: "avg_gap_of (expense_dates_of ledger_b ''rent'') = 30"
    by (simp add: expense_dates_ledger_b avg_gap_ledger_b)
  from frequency_label_bands [OF h, of float64]
  obtain r where "r \<in> set (recurring_records float64 ledger_b)" and "vendor r = ''rent''"
    and "frequency r = ''Monthly-ish'' \<longleftrightarrow>
           25 \<le> avg_gap_of (expense_dates_of ledger_b ''rent'') \<and>
           avg_gap_of (expense_dates_of ledger_b ''rent'') \<le> 35"
    by blast
  then have "r \<in> set (recurring_records float64 ledger_b) \<and> vendor r = ''rent'' \<and>
             frequency r = ''Monthly-ish''"
    by (simp add: g)
  with h show ?thesis by blast
qed

text \<open>
  The claim as written fails on \<open>ledger_b\<close>: the expenses of \<open>acme\<close> on days 0, 9 and 19
  have gaps 9 and 10, average 9.5, inside [5, 45]; the emitted label is Recurring, and 9.5
  lies neither in (20, 25) nor in (35, 45].
\<close>

theorem frequency_label_gap_counterexample:
  "vendor (recurring_records float64 ledger_b ! 0) = ''acme'' \<and>
   frequency (recurring_records float64 ledger_b ! 0) = ''Recurring'' \<and>
   length (expense_dates_of ledger_b ''acme'') = 3 \<and>
   avg_gap_of (expense_dates_of ledger_b ''acme'') = 19 / 2 \<and>
   \<not> (20 < avg_gap_of (expense_dates_of ledger_b ''acme'') \<and>
        avg_gap_of (expense_dates_of ledger_b ''acme'') < 25 \<or>
      35 < avg_gap_of (expense_dates_of ledger_b ''acme'') \<and>
        avg_gap_of (expense_dates_of ledger_b ''acme'') \<le> 45)"
  by (simp add: expense_dates_ledger_b avg_gap_ledger_b recurring_records_ledger_b)

end
